theory Spec2Isabelle
  imports Main
begin

section \<open>Python primitives used by fbx_to_lua.py\<close>

text \<open>
  Text is modelled as \<open>string\<close> (a list of 8-bit characters), so the development covers
  ASCII input. An uncaught Python exception is a value of \<open>py_error\<close>; a computation
  that may raise returns \<open>py_error + 'a\<close> with \<open>Inl\<close> for the exception.
\<close>

datatype py_error = ValueError | IndexError | OSError

definition bind :: "py_error + 'a \<Rightarrow> ('a \<Rightarrow> py_error + 'b) \<Rightarrow> py_error + 'b" where
  "bind r f = (case r of Inl e \<Rightarrow> Inl e | Inr x \<Rightarrow> f x)"

definition or_raise :: "py_error \<Rightarrow> 'a option \<Rightarrow> py_error + 'a" where
  "or_raise e r = (case r of None \<Rightarrow> Inl e | Some x \<Rightarrow> Inr x)"

text \<open>
  The numeric built-ins are parameters of the model: \<open>float(s)\<close> and \<open>int(s)\<close>
  (\<open>None\<close> is the ValueError), the float arithmetic \<open>x * k\<close> and \<open>k - x\<close> with an
  integer literal \<open>k\<close>, and the fixed-point format \<open>format(x, '.Nf')\<close>.
\<close>

record 'f py_num =
  float_of :: "string \<Rightarrow> 'f option"
  int_of :: "string \<Rightarrow> int option"
  mul_int :: "'f \<Rightarrow> int \<Rightarrow> 'f"
  rsub_int :: "int \<Rightarrow> 'f \<Rightarrow> 'f"
  fmt_f :: "nat \<Rightarrow> 'f \<Rightarrow> string"

text \<open>\<open>xs[i]\<close> for a Python list: a negative index counts from the end.\<close>

definition py_index :: "'a list \<Rightarrow> int \<Rightarrow> py_error + 'a" where
  "py_index xs i =
     (let n = int (length xs); j = (if i < 0 then i + n else i)
      in if 0 \<le> j \<and> j < n then Inr (xs ! nat j) else Inl IndexError)"

text \<open>The ASCII characters for which \<open>str.isspace\<close> holds.\<close>

definition is_space :: "char \<Rightarrow> bool" where
  "is_space c = (c = CHR '' '' \<or> c = CHR 0x09 \<or> c = CHR 0x0A \<or> c = CHR 0x0B \<or> c = CHR 0x0C
     \<or> c = CHR 0x0D \<or> c = CHR 0x1C \<or> c = CHR 0x1D \<or> c = CHR 0x1E \<or> c = CHR 0x1F)"

definition strip :: "string \<Rightarrow> string" where
  "strip s = rev (dropWhile is_space (rev (dropWhile is_space s)))"

text \<open>\<open>s.split()\<close>: the maximal runs of non-whitespace; \<open>cur\<close> is the token being read.\<close>

fun split_ws :: "string \<Rightarrow> string \<Rightarrow> string list" where
  "split_ws cur [] = (if cur = [] then [] else [cur])"
| "split_ws cur (c # cs) =
     (if is_space c then (if cur = [] then split_ws [] cs else cur # split_ws [] cs)
      else split_ws (cur @ [c]) cs)"

definition py_split :: "string \<Rightarrow> string list" where
  "py_split s = split_ws [] s"

text \<open>\<open>s.split(d)\<close> for a one-character separator: empty fields are kept.\<close>

fun split_on :: "char \<Rightarrow> string \<Rightarrow> string \<Rightarrow> string list" where
  "split_on d cur [] = [cur]"
| "split_on d cur (c # cs) =
     (if c = d then cur # split_on d [] cs else split_on d (cur @ [c]) cs)"

definition py_split_on :: "char \<Rightarrow> string \<Rightarrow> string list" where
  "py_split_on d s = split_on d [] s"

section \<open>The OBJ parser of convert_obj_to_lua\<close>

type_synonym tri = "int \<times> int \<times> int"
type_synonym face = "tri \<times> tri option"

record 'f mesh =
  vertices :: "('f \<times> 'f \<times> 'f) list"
  uvs :: "('f \<times> 'f) list"
  faces :: "face list"

definition empty_mesh :: "'f mesh" where
  "empty_mesh = \<lparr>vertices = [], uvs = [], faces = []\<rparr>"

text \<open>
  One round of the loop \<open>for vert in parts[1:]\<close>: the vertex index of the descriptor and
  its UV index when the second slash-field is present and non-empty.
\<close>

definition face_vert :: "'f py_num \<Rightarrow> string \<Rightarrow> py_error + (int \<times> int option)" where
  "face_vert P vert =
     (let indices = py_split_on CHR ''/'' vert in
      bind (py_index indices 0) (\<lambda>f0.
      bind (or_raise ValueError (int_of P f0)) (\<lambda>v_idx.
        if length indices > 1 \<and> indices ! 1 \<noteq> [] then
          bind (or_raise ValueError (int_of P (indices ! 1))) (\<lambda>uv_idx. Inr (v_idx, Some uv_idx))
        else Inr (v_idx, None))))"

fun face_loop ::
  "'f py_num \<Rightarrow> string list \<Rightarrow> int list \<Rightarrow> int list \<Rightarrow> py_error + (int list \<times> int list)" where
  "face_loop P [] face_verts face_uvs = Inr (face_verts, face_uvs)"
| "face_loop P (vert # rest) face_verts face_uvs =
     (case face_vert P vert of
        Inl e \<Rightarrow> Inl e
      | Inr (v_idx, None) \<Rightarrow> face_loop P rest (face_verts @ [v_idx]) face_uvs
      | Inr (v_idx, Some uv_idx) \<Rightarrow>
          face_loop P rest (face_verts @ [v_idx]) (face_uvs @ [uv_idx]))"

text \<open>One round of the triangulation loop, for the loop index \<open>i\<close>.\<close>

definition tri_step :: "int list \<Rightarrow> int list \<Rightarrow> nat \<Rightarrow> py_error + face" where
  "tri_step face_verts face_uvs i =
     bind (py_index face_verts 0) (\<lambda>a.
     bind (py_index face_verts (int i + 2)) (\<lambda>b.
     bind (py_index face_verts (int i + 1)) (\<lambda>c.
       if face_uvs \<noteq> [] then
         bind (py_index face_uvs 0) (\<lambda>x.
         bind (py_index face_uvs (int i + 2)) (\<lambda>y.
         bind (py_index face_uvs (int i + 1)) (\<lambda>z.
           Inr ((a, b, c), Some (x, y, z)))))
       else Inr ((a, b, c), None))))"

fun tri_loop :: "int list \<Rightarrow> int list \<Rightarrow> nat list \<Rightarrow> face list \<Rightarrow> py_error + face list" where
  "tri_loop face_verts face_uvs [] fs = Inr fs"
| "tri_loop face_verts face_uvs (i # rest) fs =
     (case tri_step face_verts face_uvs i of
        Inl e \<Rightarrow> Inl e
      | Inr t \<Rightarrow> tri_loop face_verts face_uvs rest (fs @ [t]))"

text \<open>
  \<open>for i in range(len(face_verts) - 2)\<close>, appending to the triangles \<open>fs\<close> found so far;
  the range is empty when the face has fewer than three vertices.
\<close>

definition triangulate :: "int list \<Rightarrow> int list \<Rightarrow> face list \<Rightarrow> py_error + face list" where
  "triangulate face_verts face_uvs fs =
     tri_loop face_verts face_uvs [0 ..< nat (int (length face_verts) - 2)] fs"

text \<open>The body of \<open>for line in f\<close>: the mesh after the line, or the exception it raises.\<close>

definition parse_line :: "'f py_num \<Rightarrow> 'f mesh \<Rightarrow> string \<Rightarrow> py_error + 'f mesh" where
  "parse_line P m line =
     (let parts = py_split (strip line) in
      if parts = [] then Inr m
      else if parts ! 0 = ''v'' then
        bind (py_index parts 1) (\<lambda>s1. bind (or_raise ValueError (float_of P s1)) (\<lambda>x.
        bind (py_index parts 2) (\<lambda>s2. bind (or_raise ValueError (float_of P s2)) (\<lambda>y.
        bind (py_index parts 3) (\<lambda>s3. bind (or_raise ValueError (float_of P s3)) (\<lambda>z.
          Inr (m\<lparr>vertices := vertices m @ [(x, y, z)]\<rparr>)))))))
      else if parts ! 0 = ''vt'' then
        bind (py_index parts 1) (\<lambda>s1. bind (or_raise ValueError (float_of P s1)) (\<lambda>u.
        bind (py_index parts 2) (\<lambda>s2. bind (or_raise ValueError (float_of P s2)) (\<lambda>v.
          Inr (m\<lparr>uvs := uvs m @ [(u, v)]\<rparr>)))))
      else if parts ! 0 = ''f'' then
        bind (face_loop P (drop 1 parts) [] []) (\<lambda>(face_verts, face_uvs).
        bind (triangulate face_verts face_uvs (faces m)) (\<lambda>fs.
          Inr (m\<lparr>faces := fs\<rparr>)))
      else Inr m)"

fun parse_lines :: "'f py_num \<Rightarrow> 'f mesh \<Rightarrow> string list \<Rightarrow> py_error + 'f mesh" where
  "parse_lines P m [] = Inr m"
| "parse_lines P m (line # rest) =
     (case parse_line P m line of Inl e \<Rightarrow> Inl e | Inr m' \<Rightarrow> parse_lines P m' rest)"

section \<open>The Lua serializer of convert_obj_to_lua\<close>

definition TAB :: char where "TAB = CHR 0x09"
definition NL :: char where "NL = CHR 0x0A"
definition CR :: char where "CR = CHR 0x0D"
definition DQUOTE :: char where "DQUOTE = CHR 0x22"

text \<open>\<open>str(n)\<close> for an integer: its decimal digits, with a minus sign when negative.\<close>

definition digit_char :: "nat \<Rightarrow> char" where
  "digit_char d = char_of (48 + d)"

fun str_nat :: "nat \<Rightarrow> string" where
  "str_nat n = (if n < 10 then [digit_char n] else str_nat (n div 10) @ [digit_char (n mod 10)])"

declare str_nat.simps [simp del]

definition str_int :: "int \<Rightarrow> string" where
  "str_int i = (if i < 0 then CHR ''-'' # str_nat (nat (- i)) else str_nat (nat i))"

text \<open>The line of the vertex table for one position.\<close>

definition vert_entry :: "'f py_num \<Rightarrow> 'f \<times> 'f \<times> 'f \<Rightarrow> string" where
  "vert_entry P v =
     (case v of (x, y, z) \<Rightarrow>
        [TAB] @ ''vec('' @ fmt_f P 4 x @ '', '' @ fmt_f P 4 y @ '', '' @ fmt_f P 4 z @ ''),'' @ [NL])"

text \<open>The first write of a face entry: the three vertex indices and the constant 0.\<close>

definition face_head :: "tri \<Rightarrow> string" where
  "face_head t =
     (case t of (a, b, c) \<Rightarrow>
        [TAB] @ ''{'' @ str_int a @ '', '' @ str_int b @ '', '' @ str_int c @ '', 0, '')"

definition uv_vec :: "'f py_num \<Rightarrow> 'f \<times> 'f \<Rightarrow> string" where
  "uv_vec P uv =
     ''vec('' @ fmt_f P 2 (mul_int P (fst uv) 16) @ '','' @
       fmt_f P 2 (mul_int P (rsub_int P 1 (snd uv)) 16) @ '')''"

definition fallback_uvs :: string where
  "fallback_uvs = ''vec(0,0), vec(16,0), vec(16,16)},'' @ [NL]"

text \<open>
  The body of \<open>for face_data in faces\<close>: the text written for the entry, or the
  exception raised by a UV lookup before anything of the entry is written.
\<close>

fun face_entry :: "'f py_num \<Rightarrow> ('f \<times> 'f) list \<Rightarrow> face \<Rightarrow> py_error + string" where
  "face_entry P uvl (t, Some (i1, i2, i3)) =
     (if uvl \<noteq> [] then
        bind (py_index uvl (i1 - 1)) (\<lambda>uv1.
        bind (py_index uvl (i2 - 1)) (\<lambda>uv2.
        bind (py_index uvl (i3 - 1)) (\<lambda>uv3.
          Inr (face_head t @ uv_vec P uv1 @ '', '' @ uv_vec P uv2 @ '', '' @ uv_vec P uv3
               @ ''},'' @ [NL]))))
      else Inr (face_head t @ fallback_uvs))"
| "face_entry P uvl (t, None) = Inr (face_head t @ fallback_uvs)"

text \<open>The face loop: the text written so far, and the exception that stopped it, if any.\<close>

fun write_faces ::
  "'f py_num \<Rightarrow> ('f \<times> 'f) list \<Rightarrow> face list \<Rightarrow> string \<Rightarrow> string \<times> py_error option" where
  "write_faces P uvl [] out = (out, None)"
| "write_faces P uvl (fd # rest) out =
     (case face_entry P uvl fd of
        Inl e \<Rightarrow> (out, Some e)
      | Inr s \<Rightarrow> write_faces P uvl rest (out @ s))"

text \<open>\<open>str.rfind\<close> for one character, and the POSIX versions of the \<open>os.path\<close> functions.\<close>

definition rfind :: "char \<Rightarrow> string \<Rightarrow> int" where
  "rfind c s =
     (case filter (\<lambda>i. s ! i = c) (rev [0 ..< length s]) of [] \<Rightarrow> - 1 | i # _ \<Rightarrow> int i)"

definition basename :: "string \<Rightarrow> string" where
  "basename p = drop (nat (rfind CHR ''/'' p + 1)) p"

definition splitext :: "string \<Rightarrow> string \<times> string" where
  "splitext p =
     (let sepIndex = rfind CHR ''/'' p; dotIndex = rfind CHR ''.'' p in
      if dotIndex > sepIndex \<and>
         list_ex (\<lambda>i. p ! i \<noteq> CHR ''.'') [nat (sepIndex + 1) ..< nat dotIndex]
      then (take (nat dotIndex) p, drop (nat dotIndex) p)
      else (p, []))"

definition lower_char :: "char \<Rightarrow> char" where
  "lower_char c =
     (if (65::nat) \<le> of_char c \<and> of_char c \<le> (90::nat) then char_of (of_char c + (32::nat)) else c)"

definition lower :: "string \<Rightarrow> string" where
  "lower s = map lower_char s"

text \<open>Everything written to the output file, and the exception that cut it short, if any.\<close>

definition write_lua :: "'f py_num \<Rightarrow> string \<Rightarrow> 'f mesh \<Rightarrow> string \<times> py_error option" where
  "write_lua P obj_path m =
     (let out = ''-- Auto-generated from: '' @ basename obj_path @ [NL]
              @ ''-- Picotron 3D Engine mesh format'' @ [NL, NL]
              @ ''local mesh_verts = {'' @ [NL]
              @ concat (map (vert_entry P) (vertices m))
              @ ''}'' @ [NL, NL]
              @ ''local mesh_faces = {'' @ [NL]
      in case write_faces P (uvs m) (faces m) out of
           (out', Some e) \<Rightarrow> (out', Some e)
         | (out', None) \<Rightarrow>
             (out' @ ''}'' @ [NL, NL]
                @ ''return {'' @ [NL]
                @ [TAB] @ ''verts = mesh_verts,'' @ [NL]
                @ [TAB] @ ''faces = mesh_faces,'' @ [NL]
                @ [TAB] @ ''name = '' @ [DQUOTE] @ ''mesh'' @ [DQUOTE] @ [NL]
                @ ''}'' @ [NL], None))"

section \<open>The program\<close>

text \<open>
  The world of a run: the regular files by path, and the lines printed so far. A run
  ends by falling off the end of the script, by \<open>sys.exit\<close>, or by an uncaught exception.
\<close>

record world =
  files :: "string \<rightharpoonup> string"
  stdout :: "string list"

datatype outcome = Completed | Exited int | Uncaught py_error

definition say :: "string list \<Rightarrow> world \<Rightarrow> world" where
  "say msgs w = w\<lparr>stdout := stdout w @ msgs\<rparr>"

text \<open>
  \<open>for line in f\<close> on a file opened in text mode: a line ends at \<open>\n\<close>, \<open>\r\<close> or
  \<open>\r\n\<close>, each read as \<open>\n\<close>; \<open>cur\<close> is the line being read.
\<close>

fun read_lines :: "string \<Rightarrow> string \<Rightarrow> string list" where
  "read_lines cur [] = (if cur = [] then [] else [cur])"
| "read_lines cur (c # cs) =
     (if c = NL then (cur @ [NL]) # read_lines [] cs
      else if c = CR then
        (case cs of
           [] \<Rightarrow> [cur @ [NL]]
         | d # ds \<Rightarrow>
             if d = NL then (cur @ [NL]) # read_lines [] ds else (cur @ [NL]) # read_lines [] cs)
      else read_lines (cur @ [c]) cs)"

definition convert_fbx_to_lua :: "string \<Rightarrow> string option \<Rightarrow> world \<Rightarrow> outcome \<times> world" where
  "convert_fbx_to_lua fbx_path output_path w =
     (let output_path' = (case output_path of
                            None \<Rightarrow> fst (splitext fbx_path) @ ''.lua''
                          | Some p \<Rightarrow> if p = [] then fst (splitext fbx_path) @ ''.lua'' else p)
      in (Exited 1,
          say [''Error: FBX conversion not supported'',
               ''Please export your model as OBJ format instead.'',
               ''Most 3D software (Blender, Maya, 3DS Max, etc.) can export to OBJ.''] w))"

definition convert_obj_to_lua ::
  "'f py_num \<Rightarrow> string \<Rightarrow> string option \<Rightarrow> world \<Rightarrow> outcome \<times> world" where
  "convert_obj_to_lua P obj_path output_path w =
     (let output_path' = (case output_path of
                            None \<Rightarrow> fst (splitext obj_path) @ ''.lua''
                          | Some p \<Rightarrow> if p = [] then fst (splitext obj_path) @ ''.lua'' else p)
      in case files w obj_path of
           None \<Rightarrow> (Uncaught OSError, w)
         | Some content \<Rightarrow>
             (case parse_lines P empty_mesh (read_lines [] content) of
                Inl e \<Rightarrow> (Uncaught e, w)
              | Inr m \<Rightarrow>
                  (case write_lua P obj_path m of
                     (text, Some e) \<Rightarrow> (Uncaught e, w\<lparr>files := (files w)(output_path' \<mapsto> text)\<rparr>)
                   | (text, None) \<Rightarrow>
                       (Completed,
                        say [''Converted '' @ obj_path @ '' -> '' @ output_path',
                             ''Vertices: '' @ str_int (int (length (vertices m))) @ '', Faces: ''
                               @ str_int (int (length (faces m)))]
                          (w\<lparr>files := (files w)(output_path' \<mapsto> text)\<rparr>)))))"

text \<open>
  The script body. \<open>HAS_FBX_SDK\<close> is the flag set by the import attempt at start-up;
  \<open>argv\<close> is \<open>sys.argv\<close>, the program name first.
\<close>

definition main :: "'f py_num \<Rightarrow> bool \<Rightarrow> string list \<Rightarrow> world \<Rightarrow> outcome \<times> world" where
  "main P HAS_FBX_SDK argv w =
     (if length argv < 2 then
        (Exited 1,
         say [''Usage: python fbx_to_lua.py <input.fbx|input.obj> [output.lua]'',
              [NL] @ ''Example:'',
              ''  python fbx_to_lua.py building.fbx'',
              ''  python fbx_to_lua.py model.obj custom_output.lua''] w)
      else
        (let input_file = argv ! 1;
             output_file = (if length argv > 2 then Some (argv ! 2) else None)
         in if files w input_file = None then
              (Exited 1, say [''Error: File not found: '' @ input_file] w)
            else
              (let ext = lower (snd (splitext input_file)) in
               if ext = ''.fbx'' then convert_fbx_to_lua input_file output_file w
               else if ext = ''.obj'' then convert_obj_to_lua P input_file output_file w
               else (Exited 1,
                     say [''Error: Unsupported file format: '' @ ext,
                          ''Supported: .fbx, .obj''] w))))"

section \<open>A concrete instance of the numeric built-ins\<close>

text \<open>
  For evaluating the model on concrete files: numbers are integers, \<open>int\<close> reads an
  optionally signed run of decimal digits and \<open>float\<close> an unsigned one, and the
  fixed-point format prints the integer followed by the requested number of zeros. This
  agrees with the Python built-ins on plain decimal tokens of small magnitude and on a
  token such as \<open>x\<close> that is no number, which are the tokens of the examples.
\<close>

definition is_digit :: "char \<Rightarrow> bool" where
  "is_digit c = ((48::nat) \<le> of_char c \<and> of_char c \<le> (57::nat))"

fun digits_val :: "nat \<Rightarrow> string \<Rightarrow> nat option" where
  "digits_val acc [] = Some acc"
| "digits_val acc (c # cs) =
     (if is_digit c then digits_val (acc * 10 + (of_char c - 48)) cs else None)"

definition dec_nat :: "string \<Rightarrow> nat option" where
  "dec_nat s = (if s = [] then None else digits_val 0 s)"

definition dec_int :: "string \<Rightarrow> int option" where
  "dec_int s =
     (case s of
        [] \<Rightarrow> None
      | c # cs \<Rightarrow>
          if c = CHR ''-'' then map_option (\<lambda>n. - int n) (dec_nat cs)
          else if c = CHR ''+'' then map_option int (dec_nat cs)
          else map_option int (dec_nat s))"

definition dec_num :: "int py_num" where
  "dec_num = \<lparr>float_of = (\<lambda>s. map_option int (dec_nat s)),
              int_of = dec_int,
              mul_int = (\<lambda>x k. x * k),
              rsub_int = (\<lambda>k x. k - x),
              fmt_f = (\<lambda>d x. str_int x @ ''.'' @ replicate d CHR ''0'')\<rparr>"

section \<open>Notions used to state the properties\<close>

text \<open>
  Triangle \<open>i\<close> of the reversed fan over a face with vertex indices \<open>V\<close> and UV indices
  \<open>U\<close>: positions 0, \<open>i + 2\<close>, \<open>i + 1\<close> of each list, and no UV triple when \<open>U\<close> is
  empty.
\<close>

definition fan_tri :: "int list \<Rightarrow> int list \<Rightarrow> nat \<Rightarrow> face" where
  "fan_tri V U i =
     ((V ! 0, V ! (i + 2), V ! (i + 1)),
      if U = [] then None else Some (U ! 0, U ! (i + 2), U ! (i + 1)))"

text \<open>The face-table line of a triangle that gets the fixed fallback UV triple.\<close>

definition fallback_line :: "tri \<Rightarrow> string" where
  "fallback_line t =
     (case t of (a, b, c) \<Rightarrow>
        [TAB] @ ''{'' @ str_int a @ '', '' @ str_int b @ '', '' @ str_int c
          @ '', 0, vec(0,0), vec(16,0), vec(16,16)},'' @ [NL])"

text \<open>
  A face-vertex descriptor carries a UV index when its second slash-field is present and
  non-empty; it is malformed when its first slash-field, or such a second one, is not
  an integer.
\<close>

definition has_uv :: "string \<Rightarrow> bool" where
  "has_uv d = (let fs = py_split_on CHR ''/'' d in length fs > 1 \<and> fs ! 1 \<noteq> [])"

definition bad_descriptor :: "'f py_num \<Rightarrow> string \<Rightarrow> bool" where
  "bad_descriptor P d =
     (let fs = py_split_on CHR ''/'' d
      in int_of P (fs ! 0) = None \<or> (has_uv d \<and> int_of P (fs ! 1) = None))"

text \<open>
  The lines on which the parser raises: a \<open>v\<close> (\<open>vt\<close>) line with fewer than three
  (two) tokens after the keyword or with one of the first three (two) not a float; an
  \<open>f\<close> line with a malformed descriptor, or with at least three descriptors of which
  some but not all carry a UV index.
\<close>

definition line_aborts :: "'f py_num \<Rightarrow> string \<Rightarrow> bool" where
  "line_aborts P line =
     (case py_split (strip line) of
        [] \<Rightarrow> False
      | tok # args \<Rightarrow>
          if tok = ''v'' then
            length args < 3 \<or> list_ex (\<lambda>s. float_of P s = None) (take 3 args)
          else if tok = ''vt'' then
            length args < 2 \<or> list_ex (\<lambda>s. float_of P s = None) (take 2 args)
          else if tok = ''f'' then
            list_ex (bad_descriptor P) args
            \<or> (3 \<le> length args \<and> list_ex has_uv args \<and> \<not> list_all has_uv args)
          else False)"

text \<open>The vertex and UV indices that a face line parses to.\<close>

definition line_face :: "'f py_num \<Rightarrow> string \<Rightarrow> (int list \<times> int list) option" where
  "line_face P line =
     (case py_split (strip line) of
        [] \<Rightarrow> None
      | tok # descs \<Rightarrow>
          if tok = ''f'' then
            (case face_loop P descs [] [] of Inl e \<Rightarrow> None | Inr vu \<Rightarrow> Some vu)
          else None)"

text \<open>A triangle all of whose indices occur in the index lists \<open>V\<close> and \<open>U\<close> of a face.\<close>

definition from_face :: "int list \<Rightarrow> int list \<Rightarrow> face \<Rightarrow> bool" where
  "from_face V U f =
     (case f of ((a, b, c), tu) \<Rightarrow>
        a \<in> set V \<and> b \<in> set V \<and> c \<in> set V
        \<and> (case tu of None \<Rightarrow> True | Some (x, y, z) \<Rightarrow> x \<in> set U \<and> y \<in> set U \<and> z \<in> set U))"

text \<open>A 1-based index into a sequence of \<open>n\<close> elements.\<close>

definition in_range :: "int \<Rightarrow> nat \<Rightarrow> bool" where
  "in_range k n = (1 \<le> k \<and> k \<le> int n)"

section \<open>Basic facts about the primitives\<close>

lemma bind_Inl [simp]: "bind (Inl e) f = Inl e"
  by (simp add: bind_def)

lemma bind_Inr [simp]: "bind (Inr x) f = f x"
  by (simp add: bind_def)

lemma or_raise_simps [simp]: "or_raise e None = Inl e" "or_raise e (Some x) = Inr x"
  by (simp_all add: or_raise_def)

lemma py_index_nat: "i < length xs \<Longrightarrow> py_index xs (int i) = Inr (xs ! i)"
  by (simp add: py_index_def)

lemma py_index_beyond: "length xs \<le> i \<Longrightarrow> py_index xs (int i) = Inl IndexError"
  by (simp add: py_index_def)


lemma py_index_mem: "py_index xs i = Inr x \<Longrightarrow> x \<in> set xs"
  by (auto simp add: py_index_def Let_def split: if_splits)

lemma bind_InrE:
  assumes "bind r f = Inr y"
  obtains x where "r = Inr x" and "f x = Inr y"
  using assms by (cases r) (auto simp add: bind_def)

lemma split_on_nonempty: "split_on d cur s \<noteq> []"
  by (induction s arbitrary: cur) auto

lemma face_vert_cases:
  "face_vert P d =
     (if bad_descriptor P d then Inl ValueError
      else Inr (the (int_of P (py_split_on CHR ''/'' d ! 0)),
                if has_uv d then Some (the (int_of P (py_split_on CHR ''/'' d ! 1))) else None))"
proof -
  have "py_split_on CHR ''/'' d \<noteq> []" by (simp add: py_split_on_def split_on_nonempty)
  then have "py_index (py_split_on CHR ''/'' d) 0 = Inr (py_split_on CHR ''/'' d ! 0)"
    by (simp add: py_index_def)
  then show ?thesis
    by (cases "int_of P (py_split_on CHR ''/'' d ! 0)")
      (auto simp add: face_vert_def bad_descriptor_def has_uv_def Let_def)
qed

lemma face_loop_bad:
  "list_ex (bad_descriptor P) ds \<Longrightarrow> face_loop P ds V0 U0 = Inl ValueError"
  by (induction ds arbitrary: V0 U0) (auto simp add: face_vert_cases)

lemma face_loop_good:
  "\<not> list_ex (bad_descriptor P) ds \<Longrightarrow>
   \<exists>V U. face_loop P ds V0 U0 = Inr (V0 @ V, U0 @ U)
     \<and> length V = length ds \<and> length U = length (filter has_uv ds)"
proof (induction ds arbitrary: V0 U0)
  case Nil
  then show ?case by simp
next
  case (Cons d ds)
  then have nb: "\<not> bad_descriptor P d" and rest: "\<not> list_ex (bad_descriptor P) ds" by auto
  let ?v = "the (int_of P (py_split_on CHR ''/'' d ! 0))"
  let ?u = "the (int_of P (py_split_on CHR ''/'' d ! 1))"
  show ?case
  proof (cases "has_uv d")
    case True
    from Cons.IH [OF rest, of "V0 @ [?v]" "U0 @ [?u]"]
    obtain V U where "face_loop P ds (V0 @ [?v]) (U0 @ [?u]) = Inr ((V0 @ [?v]) @ V, (U0 @ [?u]) @ U)"
      and "length V = length ds" and "length U = length (filter has_uv ds)" by blast
    then have "face_loop P (d # ds) V0 U0 = Inr (V0 @ (?v # V), U0 @ (?u # U))
       \<and> length (?v # V) = length (d # ds) \<and> length (?u # U) = length (filter has_uv (d # ds))"
      using nb True by (simp add: face_vert_cases)
    then show ?thesis by blast
  next
    case False
    from Cons.IH [OF rest, of "V0 @ [?v]" U0]
    obtain V U where "face_loop P ds (V0 @ [?v]) U0 = Inr ((V0 @ [?v]) @ V, U0 @ U)"
      and "length V = length ds" and "length U = length (filter has_uv ds)" by blast
    then have "face_loop P (d # ds) V0 U0 = Inr (V0 @ (?v # V), U0 @ U)
       \<and> length (?v # V) = length (d # ds) \<and> length U = length (filter has_uv (d # ds))"
      using nb False by (simp add: face_vert_cases)
    then show ?thesis by blast
  qed
qed

lemma face_loop_lengths:
  assumes "face_loop P ds [] [] = Inr (V, U)"
  shows "\<not> list_ex (bad_descriptor P) ds \<and> length V = length ds
         \<and> length U = length (filter has_uv ds)"
proof -
  have nb: "\<not> list_ex (bad_descriptor P) ds"
    using assms face_loop_bad [of P ds "[]" "[]"] by auto
  from face_loop_good [OF nb, of "[]" "[]"] assms show ?thesis using nb by auto
qed

lemma filter_none: "(filter p xs = []) = (\<not> list_ex p xs)"
  by (simp add: filter_empty_conv list_ex_iff)

lemma filter_all: "(length (filter p xs) = length xs) = list_all p xs"
proof
  assume "length (filter p xs) = length xs"
  then show "list_all p xs"
    using length_filter_less [of _ xs p] by (fastforce simp add: list_all_iff)
next
  assume "list_all p xs"
  then show "length (filter p xs) = length xs" by (simp add: list_all_iff)
qed

section \<open>Fan triangulation\<close>

lemma tri_step_ok:
  assumes "i + 2 < length V" and "U = [] \<or> i + 2 < length U"
  shows "tri_step V U i = Inr (fan_tri V U i)"
proof -
  have v: "py_index V 0 = Inr (V ! 0)" "py_index V (int i + 2) = Inr (V ! (i + 2))"
    "py_index V (int i + 1) = Inr (V ! (i + 1))"
    using assms(1) by (auto simp add: py_index_def nat_add_distrib)
  show ?thesis
  proof (cases "U = []")
    case True
    then show ?thesis by (simp add: tri_step_def v fan_tri_def)
  next
    case False
    with assms(2) have "i + 2 < length U" by simp
    then have "py_index U 0 = Inr (U ! 0)" "py_index U (int i + 2) = Inr (U ! (i + 2))"
      "py_index U (int i + 1) = Inr (U ! (i + 1))"
      by (auto simp add: py_index_def nat_add_distrib)
    with False show ?thesis by (simp add: tri_step_def v fan_tri_def)
  qed
qed

lemma tri_loop_ok:
  assumes "\<forall>i \<in> set js. i + 2 < length V \<and> (U = [] \<or> i + 2 < length U)"
  shows "tri_loop V U js fs = Inr (fs @ map (fan_tri V U) js)"
  using assms by (induction js arbitrary: fs) (simp_all add: tri_step_ok)

lemma triangulate_ok:
  assumes "U = [] \<or> length V \<le> length U"
  shows "triangulate V U fs = Inr (fs @ map (fan_tri V U) [0 ..< length V - 2])"
proof -
  have "nat (int (length V) - 2) = length V - 2" by simp
  moreover have "\<forall>i \<in> set [0 ..< length V - 2]. i + 2 < length V \<and> (U = [] \<or> i + 2 < length U)"
    using assms by auto
  ultimately show ?thesis by (simp add: triangulate_def tri_loop_ok del: upt_Suc)
qed

lemma tri_step_short:
  assumes "i + 2 < length V" and "U \<noteq> []" and "length U \<le> i + 2"
  shows "tri_step V U i = Inl IndexError"
proof -
  have v: "py_index V 0 = Inr (V ! 0)" "py_index V (int i + 2) = Inr (V ! (i + 2))"
    "py_index V (int i + 1) = Inr (V ! (i + 1))"
    using assms(1) by (auto simp add: py_index_def nat_add_distrib)
  have "py_index U 0 = Inr (U ! 0)" using assms(2) by (simp add: py_index_def)
  moreover have "py_index U (int i + 2) = Inl IndexError"
    using assms(3) by (simp add: py_index_def)
  ultimately show ?thesis using assms(2) by (simp add: tri_step_def v)
qed

lemma tri_loop_short:
  assumes "\<forall>j \<in> set js. j + 2 < length V" and "U \<noteq> []" and "\<exists>j \<in> set js. length U \<le> j + 2"
  shows "tri_loop V U js fs = Inl IndexError"
  using assms
proof (induction js arbitrary: fs)
  case Nil
  then show ?case by simp
next
  case (Cons j js)
  show ?case
  proof (cases "length U \<le> j + 2")
    case True
    with Cons.prems have "tri_step V U j = Inl IndexError" by (intro tri_step_short) auto
    then show ?thesis by simp
  next
    case False
    with Cons.prems have "tri_step V U j = Inr (fan_tri V U j)" by (intro tri_step_ok) auto
    moreover from False Cons.prems have "\<exists>j \<in> set js. length U \<le> j + 2" by auto
    ultimately show ?thesis using Cons.IH Cons.prems by simp
  qed
qed

lemma triangulate_short:
  assumes "3 \<le> length V" and "U \<noteq> []" and "length U < length V"
  shows "triangulate V U fs = Inl IndexError"
proof -
  have "nat (int (length V) - 2) = length V - 2" by simp
  moreover have "\<forall>j \<in> set [0 ..< length V - 2]. j + 2 < length V" by auto
  moreover have "length V - 3 \<in> set [0 ..< length V - 2]" using assms(1) by auto
  then have "\<exists>j \<in> set [0 ..< length V - 2]. length U \<le> j + 2"
    using assms(1,3) by (intro bexI [of _ "length V - 3"]) auto
  ultimately show ?thesis using assms(2) by (simp add: triangulate_def tri_loop_short del: upt_Suc)
qed

lemma triangulate_few: "length V < 3 \<Longrightarrow> triangulate V U fs = Inr fs"
proof -
  assume "length V < 3"
  then have "nat (int (length V) - 2) = 0" by simp
  then show ?thesis by (simp add: triangulate_def)
qed

lemma tri_step_mem:
  assumes "tri_step V U i = Inr f"
  shows "from_face V U f"
proof -
  from assms obtain a b c where a: "py_index V 0 = Inr a" and b: "py_index V (int i + 2) = Inr b"
    and c: "py_index V (int i + 1) = Inr c"
    and rest: "(if U \<noteq> [] then
         bind (py_index U 0) (\<lambda>x.
         bind (py_index U (int i + 2)) (\<lambda>y.
         bind (py_index U (int i + 1)) (\<lambda>z.
           Inr ((a, b, c), Some (x, y, z)))))
       else Inr ((a, b, c), None)) = Inr f"
    unfolding tri_step_def by (elim bind_InrE) blast
  have v: "a \<in> set V" "b \<in> set V" "c \<in> set V"
    using a b c by (auto dest: py_index_mem)
  show ?thesis
  proof (cases "U = []")
    case True
    with rest v show ?thesis by (auto simp add: from_face_def)
  next
    case False
    with rest obtain x y z where "py_index U 0 = Inr x" "py_index U (int i + 2) = Inr y"
      "py_index U (int i + 1) = Inr z" "f = ((a, b, c), Some (x, y, z))"
      by (auto elim!: bind_InrE)
    with v show ?thesis by (auto simp add: from_face_def dest: py_index_mem)
  qed
qed

lemma tri_loop_mem:
  assumes "tri_loop V U js fs = Inr fs'" and "f \<in> set fs'"
  shows "f \<in> set fs \<or> from_face V U f"
  using assms
proof (induction js arbitrary: fs)
  case Nil
  then show ?case by simp
next
  case (Cons j js)
  then obtain t where t: "tri_step V U j = Inr t" and r: "tri_loop V U js (fs @ [t]) = Inr fs'"
    by (auto split: sum.splits)
  from Cons.IH [OF r Cons.prems(2)] tri_step_mem [OF t] show ?case by auto
qed

text \<open>
  C1. A face line whose descriptors parse to the vertex indices \<open>V\<close> (at least three) and
  the UV indices \<open>U\<close> (none, or one per vertex) appends exactly \<open>length V - 2\<close> triangles to
  the face list: for \<open>i = 0, ..., length V - 3\<close>, in this order, the triangle with vertex
  indices \<open>(V[0], V[i+2], V[i+1])\<close> and, when \<open>U\<close> is non-empty, the UV triple
  \<open>(U[0], U[i+2], U[i+1])\<close>. The quad \<open>f 1 2 3 4\<close> gives the two triangles \<open>(1, 3, 2)\<close>
  and \<open>(1, 4, 3)\<close>, that is \<open>(V0, V2, V1)\<close> and \<open>(V0, V3, V2)\<close>.
\<close>

theorem face_line_fan_triangulation:
  assumes "py_split (strip line) = ''f'' # descs"
    and "face_loop P descs [] [] = Inr (V, U)"
    and "3 \<le> length V"
    and "U = [] \<or> length U = length V"
  shows "parse_line P m line =
           Inr (m\<lparr>faces := faces m @ map (fan_tri V U) [0 ..< length V - 2]\<rparr>)"
proof -
  have "triangulate V U (faces m) = Inr (faces m @ map (fan_tri V U) [0 ..< length V - 2])"
    using assms(4) by (intro triangulate_ok) auto
  then show ?thesis
    using assms(1,2) by (simp add: parse_line_def)
qed

lemma split_quad: "py_split (strip ''f 1 2 3 4'') = ''f'' # [''1'', ''2'', ''3'', ''4'']"
  by (simp add: py_split_def strip_def is_space_def)

lemma face_loop_quad:
  "face_loop dec_num [''1'', ''2'', ''3'', ''4''] [] [] = Inr ([1, 2, 3, 4], [])"
  by (simp add: face_vert_def py_split_on_def py_index_def dec_num_def dec_int_def dec_nat_def
      is_digit_def)

theorem face_line_fan_triangulation_quad:
  "py_split (strip ''f 1 2 3 4'') = ''f'' # [''1'', ''2'', ''3'', ''4'']
   \<and> face_loop dec_num [''1'', ''2'', ''3'', ''4''] [] [] = Inr ([1, 2, 3, 4], [])
   \<and> parse_line dec_num empty_mesh ''f 1 2 3 4''
       = Inr (empty_mesh\<lparr>faces := [((1, 3, 2), None), ((1, 4, 3), None)]\<rparr>)"
proof -
  have len: "3 \<le> length [1, 2, 3, 4 :: int]"
    and uv: "([] :: int list) = [] \<or> length ([] :: int list) = length [1, 2, 3, 4 :: int]"
    by simp_all
  have "[0 ..< length [1, 2, 3, 4 :: int] - 2] = [0, 1]"
    by (simp add: upt_rec)
  with face_line_fan_triangulation [OF split_quad face_loop_quad len uv, of empty_mesh]
  have "parse_line dec_num empty_mesh ''f 1 2 3 4''
          = Inr (empty_mesh\<lparr>faces := [((1, 3, 2), None), ((1, 4, 3), None)]\<rparr>)"
    by (simp add: fan_tri_def empty_mesh_def)
  with split_quad face_loop_quad show ?thesis by blast
qed

lemma face_entry_no_uv: "face_entry P uvl (t, None) = Inr (fallback_line t)"
  by (cases t) (simp add: fallback_line_def face_head_def fallback_uvs_def)

lemma face_entry_no_uvs: "face_entry P [] (t, tu) = Inr (fallback_line t)"
  by (cases t; cases tu) (auto simp add: fallback_line_def face_head_def fallback_uvs_def)

lemma write_faces_fallback:
  assumes "uvl = [] \<or> (\<forall>f \<in> set fs. snd f = None)"
  shows "write_faces P uvl fs out = (out @ concat (map (\<lambda>f. fallback_line (fst f)) fs), None)"
  using assms
proof (induction fs arbitrary: out)
  case Nil
  then show ?case by simp
next
  case (Cons f fs)
  obtain t tu where f: "f = (t, tu)" by (cases f)
  from Cons.prems f have "face_entry P uvl f = Inr (fallback_line t)"
    by (auto simp add: face_entry_no_uv face_entry_no_uvs simp del: face_entry.simps)
  moreover from Cons.prems have "uvl = [] \<or> (\<forall>f \<in> set fs. snd f = None)" by auto
  ultimately show ?case using Cons.IH f by simp
qed

section \<open>The serializer's fallback UV triple\<close>

text \<open>
  C3. A triangle without UV data gets the literal UV triple \<open>vec(0,0), vec(16,0),
  vec(16,16)\<close>: the entry written for a triangle that carries no UV triple, and the
  entry written for any triangle when the file's UV sequence is empty, is the tab, the
  three vertex indices, the constant 0 and that triple. A face without UV indices yields
  only triangles that carry no UV triple, and a face loop in which every triangle is of
  one of these two kinds writes the fallback line for every triangle and raises nothing.
\<close>

theorem fallback_uv_triple:
  "face_entry P uvl ((a, b, c), None)
     = Inr ([TAB] @ ''{'' @ str_int a @ '', '' @ str_int b @ '', '' @ str_int c
            @ '', 0, vec(0,0), vec(16,0), vec(16,16)},'' @ [NL])
   \<and> face_entry P [] ((a, b, c), tu)
     = Inr ([TAB] @ ''{'' @ str_int a @ '', '' @ str_int b @ '', '' @ str_int c
            @ '', 0, vec(0,0), vec(16,0), vec(16,16)},'' @ [NL])
   \<and> triangulate V [] fs
     = Inr (fs @ map (\<lambda>i. ((V ! 0, V ! (i + 2), V ! (i + 1)), None)) [0 ..< length V - 2])
   \<and> (uvl = [] \<or> (\<forall>f \<in> set fs. snd f = None) \<longrightarrow>
        write_faces P uvl fs out = (out @ concat (map (\<lambda>f. fallback_line (fst f)) fs), None))"
proof -
  have "triangulate V [] fs = Inr (fs @ map (fan_tri V []) [0 ..< length V - 2])"
    by (rule triangulate_ok) simp
  then have "triangulate V [] fs
     = Inr (fs @ map (\<lambda>i. ((V ! 0, V ! (i + 2), V ! (i + 1)), None)) [0 ..< length V - 2])"
    by (simp add: fan_tri_def)
  then show ?thesis
    using face_entry_no_uv [of P uvl "(a, b, c)"] face_entry_no_uvs [of P "(a, b, c)" tu]
      write_faces_fallback [of uvl fs P out]
    by (simp add: fallback_line_def)
qed

lemma str_int_1: "str_int 1 = ''1''" "str_int 2 = ''2''" "str_int 3 = ''3''"
  by code_simp+

theorem fallback_uv_triple_example:
  "write_faces dec_num [(0, 1)] [((1, 3, 2), None)] []
     = ([TAB] @ ''{1, 3, 2, 0, vec(0,0), vec(16,0), vec(16,16)},'' @ [NL], None)"
proof -
  have "[(0, 1 :: int)] = [] \<or> (\<forall>f \<in> set [((1 :: int, 3 :: int, 2 :: int), None :: tri option)]. snd f = None)"
    by simp
  with fallback_uv_triple [of dec_num "[(0, 1)]" 1 3 2 None "[]" "[((1, 3, 2), None)]" "[]"]
  show ?thesis by (simp add: fallback_line_def str_int_1)
qed

section \<open>Command-line dispatch\<close>

text \<open>
  C4. When the input path exists and its extension is \<open>.fbx\<close> in any letter case, the
  program prints the three lines of the re-export-as-OBJ guidance and exits with status
  1, changing no file, whatever the file contains and whatever the value of
  \<open>HAS_FBX_SDK\<close>.
\<close>

theorem fbx_input_always_exits_1:
  assumes "2 \<le> length argv"
    and "files w (argv ! 1) \<noteq> None"
    and "lower (snd (splitext (argv ! 1))) = ''.fbx''"
  shows "main P HAS_FBX_SDK argv w =
           (Exited 1,
            w\<lparr>stdout := stdout w @
               [''Error: FBX conversion not supported'',
                ''Please export your model as OBJ format instead.'',
                ''Most 3D software (Blender, Maya, 3DS Max, etc.) can export to OBJ.'']\<rparr>)"
  using assms by (auto simp add: main_def convert_fbx_to_lua_def say_def Let_def)

lemma ext_example_fbx: "lower (snd (splitext ''Building.FBX'')) = ''.fbx''"
  by code_simp

theorem fbx_input_always_exits_1_example:
  "main dec_num True [''fbx_to_lua.py'', ''Building.FBX'']
     \<lparr>files = [''Building.FBX'' \<mapsto> ''v 0 0 0''], stdout = []\<rparr>
   = (Exited 1,
      \<lparr>files = [''Building.FBX'' \<mapsto> ''v 0 0 0''],
       stdout = [''Error: FBX conversion not supported'',
                ''Please export your model as OBJ format instead.'',
                ''Most 3D software (Blender, Maya, 3DS Max, etc.) can export to OBJ.'']\<rparr>)"
proof -
  let ?argv = "[''fbx_to_lua.py'', ''Building.FBX'']"
  let ?w = "\<lparr>files = [''Building.FBX'' \<mapsto> ''v 0 0 0''], stdout = []\<rparr>"
  have a: "2 \<le> length ?argv" by simp
  have b: "files ?w (?argv ! 1) \<noteq> None" by simp
  have c: "lower (snd (splitext (?argv ! 1))) = ''.fbx''" using ext_example_fbx by simp
  from fbx_input_always_exits_1 [OF a b c, of dec_num True] show ?thesis by simp
qed


text \<open>
  C5. With no positional argument the program prints the usage message and exits with
  status 1. With an input path that does not exist it prints the file-not-found message
  and exits 1, the files untouched. With an existing input whose lower-cased extension
  is neither \<open>.fbx\<close> nor \<open>.obj\<close> it prints the unsupported-format message and exits 1.
  With an existing input whose lower-cased extension is \<open>.obj\<close> the run is the OBJ
  conversion of that input, with the second positional argument as output path if given.
\<close>

theorem command_line_dispatch:
  "(length argv < 2 \<longrightarrow>
      main P sdk argv w =
        (Exited 1,
         w\<lparr>stdout := stdout w @
            [''Usage: python fbx_to_lua.py <input.fbx|input.obj> [output.lua]'',
             [NL] @ ''Example:'',
             ''  python fbx_to_lua.py building.fbx'',
             ''  python fbx_to_lua.py model.obj custom_output.lua'']\<rparr>))
   \<and> (2 \<le> length argv \<and> files w (argv ! 1) = None \<longrightarrow>
      main P sdk argv w =
        (Exited 1, w\<lparr>stdout := stdout w @ [''Error: File not found: '' @ argv ! 1]\<rparr>))
   \<and> (2 \<le> length argv \<and> files w (argv ! 1) \<noteq> None
        \<and> lower (snd (splitext (argv ! 1))) \<noteq> ''.fbx''
        \<and> lower (snd (splitext (argv ! 1))) \<noteq> ''.obj'' \<longrightarrow>
      main P sdk argv w =
        (Exited 1,
         w\<lparr>stdout := stdout w @
            [''Error: Unsupported file format: '' @ lower (snd (splitext (argv ! 1))),
             ''Supported: .fbx, .obj'']\<rparr>))
   \<and> (2 \<le> length argv \<and> files w (argv ! 1) \<noteq> None
        \<and> lower (snd (splitext (argv ! 1))) = ''.obj'' \<longrightarrow>
      main P sdk argv w =
        convert_obj_to_lua P (argv ! 1) (if length argv > 2 then Some (argv ! 2) else None) w)"
  by (auto simp add: main_def say_def Let_def)

lemma ext_examples:
  "lower (snd (splitext ''notes.txt'')) = ''.txt''"
  "lower (snd (splitext ''model.obj'')) = ''.obj''"
  by code_simp+

theorem command_line_dispatch_examples:
  "main dec_num False [''fbx_to_lua.py''] \<lparr>files = Map.empty, stdout = []\<rparr>
     = (Exited 1,
        \<lparr>files = Map.empty,
         stdout = [''Usage: python fbx_to_lua.py <input.fbx|input.obj> [output.lua]'',
                   [NL] @ ''Example:'',
                   ''  python fbx_to_lua.py building.fbx'',
                   ''  python fbx_to_lua.py model.obj custom_output.lua'']\<rparr>)
   \<and> main dec_num False [''fbx_to_lua.py'', ''missing.obj''] \<lparr>files = Map.empty, stdout = []\<rparr>
     = (Exited 1, \<lparr>files = Map.empty, stdout = [''Error: File not found: missing.obj'']\<rparr>)
   \<and> main dec_num False [''fbx_to_lua.py'', ''notes.txt'']
        \<lparr>files = [''notes.txt'' \<mapsto> ''f 1 2 3''], stdout = []\<rparr>
     = (Exited 1,
        \<lparr>files = [''notes.txt'' \<mapsto> ''f 1 2 3''],
         stdout = [''Error: Unsupported file format: .txt'', ''Supported: .fbx, .obj'']\<rparr>)
   \<and> main dec_num False [''fbx_to_lua.py'', ''model.obj'']
        \<lparr>files = [''model.obj'' \<mapsto> ''f 1 2 3''], stdout = []\<rparr>
     = convert_obj_to_lua dec_num ''model.obj'' None
        \<lparr>files = [''model.obj'' \<mapsto> ''f 1 2 3''], stdout = []\<rparr>"
  using command_line_dispatch [where argv = "[''fbx_to_lua.py'']" and P = dec_num and sdk = False
              and w = "\<lparr>files = Map.empty, stdout = []\<rparr>"]
    command_line_dispatch [where argv = "[''fbx_to_lua.py'', ''missing.obj'']" and P = dec_num and sdk = False
          and w = "\<lparr>files = Map.empty, stdout = []\<rparr>"]
    command_line_dispatch [where argv = "[''fbx_to_lua.py'', ''notes.txt'']" and P = dec_num and sdk = False
          and w = "\<lparr>files = [''notes.txt'' \<mapsto> ''f 1 2 3''], stdout = []\<rparr>"]
    command_line_dispatch [where argv = "[''fbx_to_lua.py'', ''model.obj'']" and P = dec_num and sdk = False
          and w = "\<lparr>files = [''model.obj'' \<mapsto> ''f 1 2 3''], stdout = []\<rparr>"]
  by (simp add: ext_examples)

section \<open>The output file\<close>

text \<open>
  C10. The output file is opened only after the whole input has been parsed: when
  parsing the input raises an exception, the run ends with that uncaught exception and
  the world is the one it started in, so no file is created and a file already at the
  output path keeps its contents.
\<close>

theorem parse_failure_leaves_files_untouched:
  assumes "files w obj_path = Some content"
    and "parse_lines P empty_mesh (read_lines [] content) = Inl e"
  shows "convert_obj_to_lua P obj_path output_path w = (Uncaught e, w)"
  using assms by (simp add: convert_obj_to_lua_def Let_def)

lemma parse_bad_example: "parse_lines dec_num empty_mesh (read_lines [] ''v 1 2'') = Inl IndexError"
  by code_simp

theorem parse_failure_leaves_files_untouched_example:
  "convert_obj_to_lua dec_num ''bad.obj'' None
     \<lparr>files = [''bad.obj'' \<mapsto> ''v 1 2'', ''bad.lua'' \<mapsto> ''old''], stdout = []\<rparr>
   = (Uncaught IndexError,
      \<lparr>files = [''bad.obj'' \<mapsto> ''v 1 2'', ''bad.lua'' \<mapsto> ''old''], stdout = []\<rparr>)"
proof -
  let ?w = "\<lparr>files = [''bad.obj'' \<mapsto> ''v 1 2'', ''bad.lua'' \<mapsto> ''old''], stdout = []\<rparr>"
  have "files ?w ''bad.obj'' = Some ''v 1 2''" by simp
  from parse_failure_leaves_files_untouched [OF this parse_bad_example] show ?thesis .
qed

lemma splitext_append: "fst (splitext p) @ snd (splitext p) = p"
  by (simp add: splitext_def Let_def)

text \<open>
  C8. With exactly one positional argument, an existing \<open>.obj\<close> input that parses is
  written to the input path with its extension replaced by \<open>.lua\<close>: the input path is
  its root followed by its extension, and the file written is at the root followed by
  \<open>.lua\<close>. The input \<open>model.obj\<close> is written to \<open>model.lua\<close>.
\<close>

theorem default_output_path:
  assumes "files w inp = Some content"
    and "lower (snd (splitext inp)) = ''.obj''"
    and "parse_lines P empty_mesh (read_lines [] content) = Inr m"
  shows "fst (splitext inp) @ snd (splitext inp) = inp
         \<and> files (snd (main P sdk [prog, inp] w))
             = (files w)(fst (splitext inp) @ ''.lua'' \<mapsto> fst (write_lua P inp m))"
  using assms
  by (auto simp add: splitext_append main_def convert_obj_to_lua_def say_def Let_def
      split: prod.splits option.splits)

lemma parse_model_example:
  "parse_lines dec_num empty_mesh (read_lines [] ''f 1 2 3'')
     = Inr (empty_mesh\<lparr>faces := [((1, 3, 2), None)]\<rparr>)"
  by code_simp

lemma splitext_model_obj: "splitext ''model.obj'' = (''model'', ''.obj'')"
  by code_simp

theorem default_output_path_model_obj:
  "files (snd (main dec_num False [''fbx_to_lua.py'', ''model.obj'']
                 \<lparr>files = [''model.obj'' \<mapsto> ''f 1 2 3''], stdout = []\<rparr>))
     = [''model.obj'' \<mapsto> ''f 1 2 3'',
        ''model.lua'' \<mapsto> fst (write_lua dec_num ''model.obj''
                                  (empty_mesh\<lparr>faces := [((1, 3, 2), None)]\<rparr>))]"
proof -
  let ?w = "\<lparr>files = [''model.obj'' \<mapsto> ''f 1 2 3''], stdout = []\<rparr>"
  have a: "files ?w ''model.obj'' = Some ''f 1 2 3''" by simp
  have b: "lower (snd (splitext ''model.obj'')) = ''.obj''" by (rule ext_examples)
  from default_output_path [OF a b parse_model_example, of False "''fbx_to_lua.py''"]
  show ?thesis by (simp add: splitext_model_obj)
qed

section \<open>Faces with UV indices on some of their vertices\<close>

lemma parse_lines_abort:
  assumes "line \<in> set lines" and "\<forall>m. \<exists>e. parse_line P m line = Inl e"
  shows "\<exists>e. parse_lines P m0 lines = Inl e"
  using assms
proof (induction lines arbitrary: m0)
  case Nil
  then show ?case by simp
next
  case (Cons l ls)
  show ?case
  proof (cases "parse_line P m0 l")
    case (Inl e)
    then show ?thesis by simp
  next
    case (Inr m1)
    with Cons.prems have "line \<in> set ls" by (metis set_ConsD sum.distinct(1))
    with Cons.IH Cons.prems(2) Inr show ?thesis by simp
  qed
qed

text \<open>
  C9. A face line with at least three vertex descriptors whose UV-index list is
  non-empty but shorter than its vertex-index list raises IndexError in the
  triangulation loop, whatever the mesh read so far, and a file that contains such a
  line is not converted: parsing it ends in an exception. (A face line with fewer than
  three descriptors never enters the loop.)
\<close>

theorem partial_uv_face_aborts:
  assumes "py_split (strip line) = ''f'' # descs"
    and "face_loop P descs [] [] = Inr (V, U)"
    and "3 \<le> length V"
    and "U \<noteq> []"
    and "length U < length V"
  shows "parse_line P m line = Inl IndexError
         \<and> (line \<in> set lines \<longrightarrow> (\<exists>e. parse_lines P m lines = Inl e))"
proof -
  have *: "parse_line P m' line = Inl IndexError" for m'
    using assms by (simp add: parse_line_def triangulate_short)
  then have "\<forall>m'. \<exists>e. parse_line P m' line = Inl e" by blast
  with * parse_lines_abort [of line lines P m] show ?thesis by blast
qed

lemma partial_uv_line:
  "py_split (strip ''f 1/1 2 3'') = ''f'' # [''1/1'', ''2'', ''3'']"
  "face_loop dec_num [''1/1'', ''2'', ''3''] [] [] = Inr ([1, 2, 3], [1])"
  by code_simp+

theorem partial_uv_face_aborts_example:
  "py_split (strip ''f 1/1 2 3'') = ''f'' # [''1/1'', ''2'', ''3'']
   \<and> face_loop dec_num [''1/1'', ''2'', ''3''] [] [] = Inr ([1, 2, 3], [1])
   \<and> parse_line dec_num empty_mesh ''f 1/1 2 3'' = Inl IndexError
   \<and> (\<exists>e. parse_lines dec_num empty_mesh [''v 0 0 0'', ''f 1/1 2 3''] = Inl e)"
proof -
  have a: "3 \<le> length [1, 2, 3 :: int]" and b: "[1 :: int] \<noteq> []"
    and c: "length [1 :: int] < length [1, 2, 3 :: int]"
    by simp_all
  from partial_uv_face_aborts [OF partial_uv_line a b c, of empty_mesh "[''v 0 0 0'', ''f 1/1 2 3'']"]
  show ?thesis using partial_uv_line by simp
qed

section \<open>The lines on which the parser raises\<close>

lemma face_line_aborts_iff:
  "(\<exists>e. bind (face_loop P args [] []) (\<lambda>(V, U). bind (triangulate V U fs) (\<lambda>fs'. Inr (g fs'))) = Inl e)
   = (list_ex (bad_descriptor P) args
      \<or> (3 \<le> length args \<and> list_ex has_uv args \<and> \<not> list_all has_uv args))"
proof (cases "list_ex (bad_descriptor P) args")
  case True
  then show ?thesis by (simp add: face_loop_bad)
next
  case False
  from face_loop_good [OF False, of "[]" "[]"]
  obtain V U where fl: "face_loop P args [] [] = Inr (V, U)"
    and lv: "length V = length args" and lu: "length U = length (filter has_uv args)"
    by auto
  have ne: "(U \<noteq> []) = list_ex has_uv args"
    using lu filter_none [of has_uv args] by auto
  have full: "(length U = length V) = list_all has_uv args"
    using lu lv filter_all [of has_uv args] by simp
  have le: "length U \<le> length V" using lu lv by simp
  consider (few) "length V < 3" | (none) "3 \<le> length V" "U = []"
    | (all) "3 \<le> length V" "U \<noteq> []" "length U = length V"
    | (some) "3 \<le> length V" "U \<noteq> []" "length U < length V"
    using le by linarith
  then show ?thesis
  proof cases
    case few
    then show ?thesis using False fl lv by (simp add: triangulate_few)
  next
    case none
    then show ?thesis using False fl ne by (simp add: triangulate_ok)
  next
    case all
    then show ?thesis using False fl full by (simp add: triangulate_ok)
  next
    case some
    then show ?thesis using False fl ne full lv by (simp add: triangulate_short)
  qed
qed

lemma v_line_aborts_iff:
  "(\<exists>e. bind (py_index (tok # args) 1) (\<lambda>s1. bind (or_raise ValueError (float_of P s1)) (\<lambda>x.
        bind (py_index (tok # args) 2) (\<lambda>s2. bind (or_raise ValueError (float_of P s2)) (\<lambda>y.
        bind (py_index (tok # args) 3) (\<lambda>s3. bind (or_raise ValueError (float_of P s3)) (\<lambda>z.
          Inr (g x y z))))))) = Inl e)
   = (length args < 3 \<or> list_ex (\<lambda>s. float_of P s = None) (take 3 args))"
proof -
  consider "args = []" | a where "args = [a]" | a b where "args = [a, b]"
    | a b c r where "args = a # b # c # r"
    by (cases args; cases "tl args"; cases "tl (tl args)") auto
  then show ?thesis
    by cases (auto simp add: py_index_def or_raise_def bind_def split: option.splits)
qed

lemma vt_line_aborts_iff:
  "(\<exists>e. bind (py_index (tok # args) 1) (\<lambda>s1. bind (or_raise ValueError (float_of P s1)) (\<lambda>u.
        bind (py_index (tok # args) 2) (\<lambda>s2. bind (or_raise ValueError (float_of P s2)) (\<lambda>v.
          Inr (g u v))))) = Inl e)
   = (length args < 2 \<or> list_ex (\<lambda>s. float_of P s = None) (take 2 args))"
proof -
  consider "args = []" | a where "args = [a]" | a b r where "args = a # b # r"
    by (cases args; cases "tl args") auto
  then show ?thesis
    by cases (auto simp add: py_index_def or_raise_def bind_def split: option.splits)
qed

lemma parse_line_aborts_iff: "(\<exists>e. parse_line P m line = Inl e) = line_aborts P line"
proof (cases "py_split (strip line)")
  case Nil
  then show ?thesis by (simp add: parse_line_def line_aborts_def)
next
  case (Cons tok args)
  consider (v) "tok = ''v''" | (vt) "tok = ''vt''" | (f) "tok = ''f''"
    | (other) "tok \<noteq> ''v''" "tok \<noteq> ''vt''" "tok \<noteq> ''f''"
    by blast
  then show ?thesis
  proof cases
    case v
    with Cons show ?thesis
      by (simp only: parse_line_def line_aborts_def Let_def list.case v_line_aborts_iff
          nth_Cons_0 list.distinct if_True if_False refl)
  next
    case vt
    with Cons show ?thesis
      using vt_line_aborts_iff [of tok args P "\<lambda>u v. m\<lparr>uvs := uvs m @ [(u, v)]\<rparr>"]
      by (simp add: parse_line_def line_aborts_def Let_def)
  next
    case f
    with Cons show ?thesis
      using face_line_aborts_iff [of P args "faces m" "\<lambda>fs. m\<lparr>faces := fs\<rparr>"]
      by (simp add: parse_line_def line_aborts_def Let_def)
  next
    case other
    with Cons show ?thesis by (simp add: parse_line_def line_aborts_def)
  qed
qed

lemma parse_lines_aborts_iff:
  "(\<exists>e. parse_lines P m lines = Inl e) = list_ex (line_aborts P) lines"
proof (induction lines arbitrary: m)
  case Nil
  then show ?case by simp
next
  case (Cons l ls)
  show ?case
  proof (cases "parse_line P m l")
    case (Inl e)
    then have "line_aborts P l" using parse_line_aborts_iff [of P m l] by auto
    with Inl show ?thesis by simp
  next
    case (Inr m1)
    then have "\<not> line_aborts P l" using parse_line_aborts_iff [of P m l] by auto
    with Inr Cons.IH [of m1] show ?thesis by simp
  qed
qed

lemma parse_line_ignores:
  assumes "case py_split (strip line) of [] \<Rightarrow> True
           | tok # args \<Rightarrow> tok \<noteq> ''v'' \<and> tok \<noteq> ''vt'' \<and> tok \<noteq> ''f''"
  shows "parse_line P m line = Inr m"
  using assms by (cases "py_split (strip line)") (simp_all add: parse_line_def)

text \<open>
  C2 (as amended). Parsing raises an uncaught exception if and only if some line is a
  \<open>v\<close> line with fewer than three tokens after the keyword or with one of the first
  three of them not a float, a \<open>vt\<close> line with fewer than two or with one of the first
  two not a float, or an \<open>f\<close> line with a vertex token whose first slash-field, or
  whose non-empty second slash-field, is not an integer, or with at least three vertex
  tokens of which some but not all carry a UV index. A blank line and a line whose
  leading token is not \<open>v\<close>, \<open>vt\<close> or \<open>f\<close> does not raise and leaves the mesh as it is.
\<close>

theorem obj_parser_aborts_iff:
  "((\<exists>e. parse_lines P m lines = Inl e) = list_ex (line_aborts P) lines)
   \<and> ((case py_split (strip line) of
          [] \<Rightarrow> True
        | tok # args \<Rightarrow> tok \<noteq> ''v'' \<and> tok \<noteq> ''vt'' \<and> tok \<noteq> ''f'') \<longrightarrow>
       parse_line P m line = Inr m)"
  using parse_lines_aborts_iff [of P m lines] parse_line_ignores [of line P m] by blast

lemma aborts_examples:
  "list_ex (line_aborts dec_num) [''v 0 0 0'', ''f 1/1 2 3'']"
  "py_split (strip ''vn 0 0 1'') = [''vn'', ''0'', ''0'', ''1'']"
  by code_simp+

theorem obj_parser_aborts_iff_example:
  "(\<exists>e. parse_lines dec_num empty_mesh [''v 0 0 0'', ''f 1/1 2 3''] = Inl e)
   \<and> list_ex (line_aborts dec_num) [''v 0 0 0'', ''f 1/1 2 3'']
   \<and> parse_line dec_num empty_mesh ''vn 0 0 1'' = Inr empty_mesh"
proof -
  have a: "list_ex (line_aborts dec_num) [''v 0 0 0'', ''f 1/1 2 3'']"
    by (rule aborts_examples)
  have b: "case py_split (strip ''vn 0 0 1'') of
             [] \<Rightarrow> True
           | tok # args \<Rightarrow> tok \<noteq> ''v'' \<and> tok \<noteq> ''vt'' \<and> tok \<noteq> ''f''"
    by (simp add: aborts_examples)
  from obj_parser_aborts_iff [of dec_num empty_mesh "[''v 0 0 0'', ''f 1/1 2 3'']" "''vn 0 0 1''"]
    a b
  show ?thesis by blast
qed

text \<open>
  obj_parser_aborts_iff as stated fails in both directions: an \<open>f\<close> line with no vertex token raises
  nothing and leaves the mesh unchanged, and the line \<open>f 1/x 2 3\<close>, whose vertex tokens
  all have an integer first slash-field, raises ValueError.
\<close>

theorem face_line_abort_counterexample:
  "parse_line dec_num empty_mesh ''f'' = Inr empty_mesh
   \<and> parse_line dec_num empty_mesh ''f 1/x 2 3'' = Inl ValueError"
  by code_simp

section \<open>Indices in the face table\<close>

lemma parse_line_faces:
  assumes "parse_line P m line = Inr m'" and "f \<in> set (faces m')"
  shows "f \<in> set (faces m) \<or> (\<exists>V U. line_face P line = Some (V, U) \<and> from_face V U f)"
proof (cases "py_split (strip line)")
  case Nil
  with assms show ?thesis by (simp add: parse_line_def)
next
  case (Cons tok args)
  consider (v) "tok = ''v''" | (vt) "tok = ''vt''" | (f) "tok = ''f''"
    | (other) "tok \<noteq> ''v''" "tok \<noteq> ''vt''" "tok \<noteq> ''f''"
    by blast
  then show ?thesis
  proof cases
    case v
    with Cons assms show ?thesis
      by (auto simp add: parse_line_def Let_def elim!: bind_InrE)
  next
    case vt
    with Cons assms show ?thesis
      by (auto simp add: parse_line_def Let_def elim!: bind_InrE)
  next
    case f
    with Cons assms(1) obtain V U fs where fl: "face_loop P args [] [] = Inr (V, U)"
      and tr: "triangulate V U (faces m) = Inr fs" and m': "m' = m\<lparr>faces := fs\<rparr>"
      by (auto simp add: parse_line_def Let_def elim!: bind_InrE)
    from fl Cons f have "line_face P line = Some (V, U)" by (simp add: line_face_def)
    moreover from tr m' assms(2) have "f \<in> set (faces m) \<or> from_face V U f"
      using tri_loop_mem [of V U _ "faces m" fs f] by (simp add: triangulate_def)
    ultimately show ?thesis by blast
  next
    case other
    with Cons assms show ?thesis by (simp add: parse_line_def)
  qed
qed

lemma parse_lines_faces:
  assumes "parse_lines P m lines = Inr m'" and "f \<in> set (faces m')"
  shows "f \<in> set (faces m)
         \<or> (\<exists>line \<in> set lines. \<exists>V U. line_face P line = Some (V, U) \<and> from_face V U f)"
  using assms
proof (induction lines arbitrary: m)
  case Nil
  then show ?case by simp
next
  case (Cons l ls)
  then obtain m1 where l: "parse_line P m l = Inr m1" and r: "parse_lines P m1 ls = Inr m'"
    by (auto split: sum.splits)
  from Cons.IH [OF r Cons.prems(2)] parse_line_faces [OF l, of f] show ?case by auto
qed

lemma face_entry_head:
  assumes "face_entry P uvl ((a, b, c), tu) = Inr s"
  shows "\<exists>rest. s = [TAB] @ ''{'' @ str_int a @ '', '' @ str_int b @ '', '' @ str_int c
                      @ '', 0, '' @ rest"
proof (cases tu)
  case None
  with assms show ?thesis by (auto simp add: face_head_def)
next
  case (Some t)
  obtain i1 i2 i3 where "t = (i1, i2, i3)" by (cases t)
  with Some assms show ?thesis
    by (cases "uvl = []") (auto simp add: face_head_def elim!: bind_InrE)
qed

lemma face_entry_written:
  assumes "\<forall>x y z. tu = Some (x, y, z) \<longrightarrow>
             in_range x (length uvl) \<and> in_range y (length uvl) \<and> in_range z (length uvl)"
  shows "\<exists>s. face_entry P uvl (t, tu) = Inr s"
proof (cases tu)
  case None
  then show ?thesis by simp
next
  case (Some u)
  obtain x y z where u: "u = (x, y, z)" by (cases u)
  with Some assms have "in_range x (length uvl)" "in_range y (length uvl)" "in_range z (length uvl)"
    by auto
  then have "py_index uvl (x - 1) = Inr (uvl ! nat (x - 1))"
    "py_index uvl (y - 1) = Inr (uvl ! nat (y - 1))"
    "py_index uvl (z - 1) = Inr (uvl ! nat (z - 1))"
    by (simp_all add: in_range_def py_index_def)
  with Some u show ?thesis by simp
qed

text \<open>
  C6. Every triangle of the parsed mesh has its three vertex indices, and its UV indices
  if any, among the indices parsed from one face line of the input; the entry written
  for it starts with the tab, these three vertex indices in decimal, unchanged, and the
  constant fourth field 0. Consequently, when the indices parsed from every face line
  lie within 1 and the length of the vertex sequence, respectively of the UV sequence,
  so do the vertex and UV indices of every triangle, and its entry is written without
  an out-of-range lookup.
\<close>

theorem face_indices_pass_through:
  assumes "parse_lines P empty_mesh lines = Inr m"
    and "((a, b, c), tu) \<in> set (faces m)"
  shows "(\<exists>line \<in> set lines. \<exists>V U. line_face P line = Some (V, U)
            \<and> a \<in> set V \<and> b \<in> set V \<and> c \<in> set V
            \<and> (\<forall>x y z. tu = Some (x, y, z) \<longrightarrow> x \<in> set U \<and> y \<in> set U \<and> z \<in> set U))
         \<and> (\<forall>s. face_entry P (uvs m) ((a, b, c), tu) = Inr s \<longrightarrow>
               (\<exists>rest. s = [TAB] @ ''{'' @ str_int a @ '', '' @ str_int b @ '', '' @ str_int c
                              @ '', 0, '' @ rest))
         \<and> ((\<forall>line \<in> set lines. \<forall>V U. line_face P line = Some (V, U) \<longrightarrow>
                (\<forall>k \<in> set V. in_range k (length (vertices m)))
                \<and> (\<forall>k \<in> set U. in_range k (length (uvs m)))) \<longrightarrow>
             in_range a (length (vertices m)) \<and> in_range b (length (vertices m))
             \<and> in_range c (length (vertices m))
             \<and> (\<forall>x y z. tu = Some (x, y, z) \<longrightarrow>
                  in_range x (length (uvs m)) \<and> in_range y (length (uvs m))
                  \<and> in_range z (length (uvs m)))
             \<and> (\<exists>s. face_entry P (uvs m) ((a, b, c), tu) = Inr s))"
proof -
  from parse_lines_faces [OF assms]
  obtain line V U where line: "line \<in> set lines" and lf: "line_face P line = Some (V, U)"
    and ff: "from_face V U ((a, b, c), tu)"
    by (auto simp add: empty_mesh_def)
  from ff have v: "a \<in> set V" "b \<in> set V" "c \<in> set V"
    and u: "\<forall>x y z. tu = Some (x, y, z) \<longrightarrow> x \<in> set U \<and> y \<in> set U \<and> z \<in> set U"
    by (auto simp add: from_face_def)
  have 1: "\<exists>line \<in> set lines. \<exists>V U. line_face P line = Some (V, U)
            \<and> a \<in> set V \<and> b \<in> set V \<and> c \<in> set V
            \<and> (\<forall>x y z. tu = Some (x, y, z) \<longrightarrow> x \<in> set U \<and> y \<in> set U \<and> z \<in> set U)"
    using line lf v u by blast
  have 2: "\<forall>s. face_entry P (uvs m) ((a, b, c), tu) = Inr s \<longrightarrow>
               (\<exists>rest. s = [TAB] @ ''{'' @ str_int a @ '', '' @ str_int b @ '', '' @ str_int c
                              @ '', 0, '' @ rest)"
    using face_entry_head by blast
  have 3: "in_range a (length (vertices m)) \<and> in_range b (length (vertices m))
             \<and> in_range c (length (vertices m))
             \<and> (\<forall>x y z. tu = Some (x, y, z) \<longrightarrow>
                  in_range x (length (uvs m)) \<and> in_range y (length (uvs m))
                  \<and> in_range z (length (uvs m)))
             \<and> (\<exists>s. face_entry P (uvs m) ((a, b, c), tu) = Inr s)"
    if valid: "\<forall>line \<in> set lines. \<forall>V U. line_face P line = Some (V, U) \<longrightarrow>
                (\<forall>k \<in> set V. in_range k (length (vertices m)))
                \<and> (\<forall>k \<in> set U. in_range k (length (uvs m)))"
  proof -
    from valid line lf have bv: "\<forall>k \<in> set V. in_range k (length (vertices m))"
      and bu: "\<forall>k \<in> set U. in_range k (length (uvs m))" by blast+
    from bu u have r: "\<forall>x y z. tu = Some (x, y, z) \<longrightarrow>
                  in_range x (length (uvs m)) \<and> in_range y (length (uvs m))
                  \<and> in_range z (length (uvs m))" by blast
    from face_entry_written [OF r] bv v r show ?thesis by blast
  qed
  from 1 2 3 show ?thesis by blast
qed

lemma pass_through_example:
  "parse_lines dec_num empty_mesh [''v 0 0 0'', ''v 1 0 0'', ''v 0 1 0'', ''vt 0 1'', ''f 1/1 2/1 3/1'']
     = Inr \<lparr>vertices = [(0, 0, 0), (1, 0, 0), (0, 1, 0)], uvs = [(0, 1)],
            faces = [((1, 3, 2), Some (1, 1, 1))]\<rparr>"
  "line_face dec_num ''v 0 0 0'' = None"
  "line_face dec_num ''v 1 0 0'' = None"
  "line_face dec_num ''v 0 1 0'' = None"
  "line_face dec_num ''vt 0 1'' = None"
  "line_face dec_num ''f 1/1 2/1 3/1'' = Some ([1, 2, 3], [1, 1, 1])"
  by code_simp+

theorem face_indices_pass_through_example:
  "parse_lines dec_num empty_mesh [''v 0 0 0'', ''v 1 0 0'', ''v 0 1 0'', ''vt 0 1'', ''f 1/1 2/1 3/1'']
     = Inr \<lparr>vertices = [(0, 0, 0), (1, 0, 0), (0, 1, 0)], uvs = [(0, 1)],
            faces = [((1, 3, 2), Some (1, 1, 1))]\<rparr>
   \<and> in_range 1 3 \<and> in_range 3 3 \<and> in_range 2 3 \<and> in_range 1 1
   \<and> (\<exists>s. face_entry dec_num [(0, 1)] ((1, 3, 2), Some (1, 1, 1)) = Inr s)"
proof -
  let ?L = "[''v 0 0 0'', ''v 1 0 0'', ''v 0 1 0'', ''vt 0 1'', ''f 1/1 2/1 3/1'']"
  let ?M = "\<lparr>vertices = [(0, 0, 0), (1, 0, 0), (0, 1, 0)], uvs = [(0, 1)],
             faces = [((1, 3, 2), Some (1, 1, 1))]\<rparr> :: int mesh"
  have p: "parse_lines dec_num empty_mesh ?L = Inr ?M" by (rule pass_through_example)
  have f: "((1, 3, 2), Some (1, 1, 1)) \<in> set (faces ?M)" by simp
  have valid: "\<forall>line \<in> set ?L. \<forall>V U. line_face dec_num line = Some (V, U) \<longrightarrow>
                (\<forall>k \<in> set V. in_range k (length (vertices ?M)))
                \<and> (\<forall>k \<in> set U. in_range k (length (uvs ?M)))"
    by (simp add: pass_through_example in_range_def)
  from face_indices_pass_through [OF p f] valid
  have "in_range 1 (length (vertices ?M)) \<and> in_range 3 (length (vertices ?M))
        \<and> in_range 2 (length (vertices ?M))
        \<and> (\<forall>x y z. Some (1, 1, 1) = Some (x, y, z) \<longrightarrow>
              in_range x (length (uvs ?M)) \<and> in_range y (length (uvs ?M))
              \<and> in_range z (length (uvs ?M)))
        \<and> (\<exists>s. face_entry dec_num (uvs ?M) ((1, 3, 2), Some (1, 1, 1)) = Inr s)"
    by blast
  then have "in_range 1 3 \<and> in_range 3 3 \<and> in_range 2 3 \<and> in_range 1 1
        \<and> (\<exists>s. face_entry dec_num [(0, 1)] ((1, 3, 2), Some (1, 1, 1)) = Inr s)"
    by (simp add: in_range_def del: face_entry.simps)
  with p show ?thesis by (intro conjI) blast+
qed

section \<open>Formatting of UV pairs and vertex positions\<close>




end
